theory Spec2Isabelle
  imports Main "HOL-Library.Sublist"
begin

section \<open>The Kafka events handler of caddy-events-kafka\<close>

text \<open>
  A shallow embedding of \<^verbatim>\<open>module.go\<close>: the handler's configuration, its validation,
  the Caddyfile directive parser, the provisioning of the producer and the per-event
  publish step. Go strings are byte sequences and are modelled as \<^typ>\<open>string\<close>;
  a Go \<^verbatim>\<open>error\<close> result is an \<^verbatim>\<open>error option\<close> (\<^verbatim>\<open>nil\<close> is \<open>None\<close>).
\<close>

subsection \<open>Errors\<close>

text \<open>
  \<^verbatim>\<open>fmt.Errorf(msg)\<close> is \<open>Errorf msg\<close> with the formatted text. \<^verbatim>\<open>d.ArgErr()\<close> is
  the Caddyfile dispenser's "wrong argument count" error; its text (which quotes the
  current token and its position) is not modelled.
\<close>

datatype error = Errorf string | ArgErr

text \<open>\<^verbatim>\<open>err.Error()\<close>, the text that the verb \<^verbatim>\<open>%v\<close> prints.\<close>

fun Error :: "error \<Rightarrow> string" where
  "Error (Errorf msg) = msg"
| "Error ArgErr = ''wrong argument count or unexpected line ending''"

subsection \<open>The configuration\<close>

text \<open>
  The exported fields of \<^verbatim>\<open>KafkaHandler\<close>. A Go slice can be \<^verbatim>\<open>nil\<close>: \<^verbatim>\<open>BootstrapServers\<close>
  is an optional list, \<open>None\<close> for the nil slice, and \<open>len\<close> is Go's \<^verbatim>\<open>len\<close>, which is
  0 on it. The zero value is what \<^verbatim>\<open>new(KafkaHandler)\<close> allocates.
\<close>

type_synonym SASLAlgorithm = string

definition SASLMethodSHA256 :: SASLAlgorithm where
  "SASLMethodSHA256 = ''sha256''"

definition SASLMethodSHA512 :: SASLAlgorithm where
  "SASLMethodSHA512 = ''sha512''"

record KafkaHandler =
  BootstrapServers :: "string list option"
  Topic :: string
  TLSEnabled :: bool
  TLSNoVerify :: bool
  SASLAuth :: bool
  SASLAlgorithm :: SASLAlgorithm
  SASLUsername :: string
  SASLPassword :: string

definition new_KafkaHandler :: KafkaHandler where
  "new_KafkaHandler =
     \<lparr>BootstrapServers = None, Topic = [], TLSEnabled = False, TLSNoVerify = False,
      SASLAuth = False, SASLAlgorithm = [], SASLUsername = [], SASLPassword = []\<rparr>"

definition len :: "'a list option \<Rightarrow> nat" where
  "len s = (case s of None \<Rightarrow> 0 | Some xs \<Rightarrow> length xs)"

subsection \<open>Validate\<close>

definition Validate :: "KafkaHandler \<Rightarrow> error option" where
  "Validate h =
     (if BootstrapServers h = None \<or> len (BootstrapServers h) = 0 then
        Some (Errorf ''kafka bootstrap_servers missing'')
      else if Topic h = [] then
        Some (Errorf ''kafka topic missing'')
      else if SASLAuth h then
        (if SASLUsername h = [] then
           Some (Errorf ''kafka missing sasl username'')
         else if SASLPassword h = [] then
           Some (Errorf ''kafka missing sasl username'')
         else if SASLAlgorithm h \<noteq> ''sha256'' \<and> SASLAlgorithm h \<noteq> ''sha512'' then
           Some (Errorf ''kafka invalid sasl algorithm'')
         else None)
      else None)"

subsection \<open>The string functions the parser calls\<close>

text \<open>
  \<^verbatim>\<open>strings.Split(s, sep)\<close> for a separator of one byte, as the source calls it with
  \<^verbatim>\<open>","\<close>: the pieces of \<open>s\<close> between the separators, in order. The empty string
  has one piece, the empty one.
\<close>

fun Split :: "string \<Rightarrow> char \<Rightarrow> string list" where
  "Split [] sep = [[]]"
| "Split (c # cs) sep =
     (if c = sep then [] # Split cs sep
      else (case Split cs sep of
              [] \<Rightarrow> [[c]]
            | p # ps \<Rightarrow> (c # p) # ps))"

text \<open>
  \<^verbatim>\<open>strings.Join\<close>, which the source does not call: the pieces with the separator
  between them. It states what a split is a split of.
\<close>

fun Join :: "string list \<Rightarrow> string \<Rightarrow> string" where
  "Join [] sep = []"
| "Join [p] sep = p"
| "Join (p # q # ps) sep = p @ sep @ Join (q # ps) sep"

text \<open>
  \<^verbatim>\<open>strings.TrimSpace\<close> removes all leading and trailing white space, as defined by
  Unicode: the runes of Go's table \<^verbatim>\<open>unicode.White_Space\<close>, here each in its UTF-8
  encoding: U+0009 to U+000D, U+0020, U+0085, U+00A0, U+1680, U+2000 to U+200A, U+2028,
  U+2029, U+202F, U+205F and U+3000. A byte sequence that is not the encoding of such
  a rune is never removed. The leading white space goes first, then the trailing
  white space of what is left. (No encoding is empty; the test \<open>e \<noteq> []\<close> below lets
  the functions be defined before that is proved.)
\<close>

definition space_runes :: "string list" where
  "space_runes =
     [[CHR 0x09], [CHR 0x0A], [CHR 0x0B], [CHR 0x0C], [CHR 0x0D], [CHR 0x20],
      [CHR 0xC2, CHR 0x85], [CHR 0xC2, CHR 0xA0], [CHR 0xE1, CHR 0x9A, CHR 0x80],
      [CHR 0xE2, CHR 0x80, CHR 0x80], [CHR 0xE2, CHR 0x80, CHR 0x81],
      [CHR 0xE2, CHR 0x80, CHR 0x82], [CHR 0xE2, CHR 0x80, CHR 0x83],
      [CHR 0xE2, CHR 0x80, CHR 0x84], [CHR 0xE2, CHR 0x80, CHR 0x85],
      [CHR 0xE2, CHR 0x80, CHR 0x86], [CHR 0xE2, CHR 0x80, CHR 0x87],
      [CHR 0xE2, CHR 0x80, CHR 0x88], [CHR 0xE2, CHR 0x80, CHR 0x89],
      [CHR 0xE2, CHR 0x80, CHR 0x8A], [CHR 0xE2, CHR 0x80, CHR 0xA8],
      [CHR 0xE2, CHR 0x80, CHR 0xA9], [CHR 0xE2, CHR 0x80, CHR 0xAF],
      [CHR 0xE2, CHR 0x81, CHR 0x9F], [CHR 0xE3, CHR 0x80, CHR 0x80]]"

function TrimLeft :: "string \<Rightarrow> string" where
  "TrimLeft s =
     (case find (\<lambda>e. e \<noteq> [] \<and> prefix e s) space_runes of
        None \<Rightarrow> s
      | Some e \<Rightarrow> TrimLeft (drop (length e) s))"
  by pat_completeness auto
termination
proof (relation "measure length")
  show "wf (measure length)" by simp
next
  fix s :: string and e :: string
  assume "find (\<lambda>e. e \<noteq> [] \<and> prefix e s) space_runes = Some e"
  then have "e \<noteq> []" and "prefix e s"
    by (auto simp: find_Some_iff)
  then show "(drop (length e) s, s) \<in> measure length"
    by (auto simp: prefix_def)
qed

function TrimRight :: "string \<Rightarrow> string" where
  "TrimRight s =
     (case find (\<lambda>e. e \<noteq> [] \<and> suffix e s) space_runes of
        None \<Rightarrow> s
      | Some e \<Rightarrow> TrimRight (take (length s - length e) s))"
  by pat_completeness auto
termination
proof (relation "measure length")
  show "wf (measure length)" by simp
next
  fix s :: string and e :: string
  assume "find (\<lambda>e. e \<noteq> [] \<and> suffix e s) space_runes = Some e"
  then have "e \<noteq> []" and "suffix e s"
    by (auto simp: find_Some_iff)
  then show "(take (length s - length e) s, s) \<in> measure length"
    by (auto simp: suffix_def)
qed

definition TrimSpace :: "string \<Rightarrow> string" where
  "TrimSpace s = TrimRight (TrimLeft s)"

subsection \<open>The Caddyfile dispenser\<close>

text \<open>
  \<^verbatim>\<open>caddyfile.Dispenser\<close> belongs to Caddy, not to this repository; the parser drives
  it through \<^verbatim>\<open>Next\<close>, \<^verbatim>\<open>NextBlock\<close>, \<^verbatim>\<open>Val\<close>, \<^verbatim>\<open>Args\<close> and \<^verbatim>\<open>ArgErr\<close>. It is modelled
  after Caddy's implementation: a list of tokens, each with the file and the line it
  starts on, a cursor (-1 before the first token) and the nesting depth of the blocks
  entered. Two tokens are on one line when they come from one file and the second
  starts on the line on which the first ends. The chains of imports and the extra lines
  of a heredoc, which also separate lines in Caddy, are left out: the tokens modelled
  are those of one file without heredocs. Every operation returns its result with the
  dispenser it leaves.
\<close>

record Token =
  File :: string
  Line :: int
  Text :: string

record Dispenser =
  tokens :: "Token list"
  cursor :: int
  nesting :: int

definition NewDispenser :: "Token list \<Rightarrow> Dispenser" where
  "NewDispenser ts = \<lparr>tokens = ts, cursor = - 1, nesting = 0\<rparr>"

definition Next :: "Dispenser \<Rightarrow> bool \<times> Dispenser" where
  "Next d =
     (if cursor d < int (length (tokens d)) - 1 then (True, d\<lparr>cursor := cursor d + 1\<rparr>)
      else (False, d))"

definition Val :: "Dispenser \<Rightarrow> string" where
  "Val d =
     (if cursor d < 0 \<or> int (length (tokens d)) \<le> cursor d then []
      else Text (tokens d ! nat (cursor d)))"

definition NumLineBreaks :: "Token \<Rightarrow> int" where
  "NumLineBreaks t = int (count_list (Text t) (CHR 0x0A))"

definition isNextOnNewLine :: "Token \<Rightarrow> Token \<Rightarrow> bool" where
  "isNextOnNewLine t1 t2 =
     (if File t1 \<noteq> File t2 then True else Line t1 + NumLineBreaks t1 < Line t2)"

definition nextOnSameLine :: "Dispenser \<Rightarrow> bool \<times> Dispenser" where
  "nextOnSameLine d =
     (if cursor d < 0 then (True, d\<lparr>cursor := cursor d + 1\<rparr>)
      else if int (length (tokens d)) - 1 \<le> cursor d then (False, d)
      else if \<not> isNextOnNewLine (tokens d ! nat (cursor d)) (tokens d ! nat (cursor d + 1))
        then (True, d\<lparr>cursor := cursor d + 1\<rparr>)
      else (False, d))"

text \<open>\<^verbatim>\<open>NextArg\<close>: the next token of the line, unless it opens a block.\<close>

definition NextArg :: "Dispenser \<Rightarrow> bool \<times> Dispenser" where
  "NextArg d =
     (case nextOnSameLine d of
        (False, d1) \<Rightarrow> (False, d1)
      | (True, d1) \<Rightarrow>
          if Val d1 = ''{'' then (False, d1\<lparr>cursor := cursor d1 - 1\<rparr>) else (True, d1))"

text \<open>
  \<^verbatim>\<open>Args(targets...)\<close> for \<open>n\<close> targets: it loads arguments of the line one by one and
  stores each into its target. The values stored are returned in order; when the line
  runs out the result is false and the targets left have not been written.
\<close>

fun Args :: "nat \<Rightarrow> Dispenser \<Rightarrow> bool \<times> string list \<times> Dispenser" where
  "Args 0 d = (True, [], d)"
| "Args (Suc n) d =
     (case NextArg d of
        (False, d1) \<Rightarrow> (False, [], d1)
      | (True, d1) \<Rightarrow>
          (case Args n d1 of (ok, vs, d2) \<Rightarrow> (ok, Val d1 # vs, d2)))"

text \<open>The value of target \<open>i\<close> after \<^verbatim>\<open>Args\<close>: the stored one, or the old one.\<close>

definition target :: "string list \<Rightarrow> nat \<Rightarrow> string \<Rightarrow> string" where
  "target vs i old = (if i < length vs then vs ! i else old)"

text \<open>
  The condition \<^verbatim>\<open>d.Val() == s && !d.nextOnSameLine()\<close> of \<^verbatim>\<open>NextBlock\<close>: the second
  operand runs, and may move the cursor, only when the first holds.
\<close>

definition Val_is_and_not_nextOnSameLine :: "string \<Rightarrow> Dispenser \<Rightarrow> bool \<times> Dispenser" where
  "Val_is_and_not_nextOnSameLine s d =
     (if Val d = s then (case nextOnSameLine d of (b, d1) \<Rightarrow> (\<not> b, d1)) else (False, d))"

definition NextBlock :: "int \<Rightarrow> Dispenser \<Rightarrow> bool \<times> Dispenser" where
  "NextBlock initialNestingLevel d =
     (if initialNestingLevel < nesting d then
        (case Next d of
           (False, d1) \<Rightarrow> (False, d1)
         | (True, d1) \<Rightarrow>
             (case Val_is_and_not_nextOnSameLine ''}'' d1 of
                (True, d2) \<Rightarrow>
                  (initialNestingLevel < nesting d2 - 1, d2\<lparr>nesting := nesting d2 - 1\<rparr>)
              | (False, d2) \<Rightarrow>
                  (case Val_is_and_not_nextOnSameLine ''{'' d2 of
                     (True, d3) \<Rightarrow>
                       (initialNestingLevel < nesting d3 + 1, d3\<lparr>nesting := nesting d3 + 1\<rparr>)
                   | (False, d3) \<Rightarrow> (initialNestingLevel < nesting d3, d3))))
      else
        (case nextOnSameLine d of
           (False, d1) \<Rightarrow> (False, d1)
         | (True, d1) \<Rightarrow>
             if Val d1 \<noteq> ''{'' then (False, d1\<lparr>cursor := cursor d1 - 1\<rparr>)
             else (case Next d1 of
                     (_, d2) \<Rightarrow>
                       if Val d2 = ''}'' then (False, d2)
                       else (True, d2\<lparr>nesting := nesting d2 + 1\<rparr>))))"

subsection \<open>UnmarshalCaddyfile\<close>

text \<open>
  One round of the loop body, the \<^verbatim>\<open>switch\<close> on the current token: the error returned,
  if any, with the dispenser and the handler as the round leaves them. The handler is
  written through a pointer, so what a failing round has stored so far stays stored.
\<close>

definition directive :: "Dispenser \<Rightarrow> KafkaHandler \<Rightarrow> error option \<times> Dispenser \<times> KafkaHandler" where
  "directive d h =
     (let val = Val d in
      if val = ''topic'' then
        (case Args 1 d of
           (ok, vs, d1) \<Rightarrow>
             let h1 = h\<lparr>Topic := target vs 0 (Topic h)\<rparr> in
             if \<not> ok then (Some ArgErr, d1, h1) else (None, d1, h1))
      else if val = ''sasl_scram'' then
        (case Args 3 d of
           (ok, vs, d1) \<Rightarrow>
             let mech = target vs 0 [];
                 h1 = h\<lparr>SASLUsername := target vs 1 (SASLUsername h),
                        SASLPassword := target vs 2 (SASLPassword h)\<rparr>
             in
             if \<not> ok then (Some ArgErr, d1, h1)
             else if mech = ''sha256'' then
               (None, d1, h1\<lparr>SASLAlgorithm := SASLMethodSHA256, SASLAuth := True\<rparr>)
             else if mech = ''sha512'' then
               (None, d1, h1\<lparr>SASLAlgorithm := SASLMethodSHA512, SASLAuth := True\<rparr>)
             else (Some (Errorf (''unsupported SCRAM method: '' @ mech)), d1, h1))
      else if val = ''tls'' then
        (case Args 1 d of
           (ok, vs, d1) \<Rightarrow>
             let tls_enabled = target vs 0 [] in
             if \<not> ok then (Some ArgErr, d1, h)
             else if tls_enabled = ''on'' then (None, d1, h\<lparr>TLSEnabled := True\<rparr>)
             else if tls_enabled = ''off'' then (None, d1, h\<lparr>TLSEnabled := False\<rparr>)
             else (Some (Errorf ''invalid value for tls''), d1, h))
      else if val = ''tls_no_verify'' then
        (None, d, h\<lparr>TLSNoVerify := True\<rparr>)
      else if val = ''bootstrap_servers'' then
        (case Next d of
           (False, d1) \<Rightarrow> (Some ArgErr, d1, h)
         | (True, d1) \<Rightarrow>
             (None, d1,
              h\<lparr>BootstrapServers := Some (map TrimSpace (Split (Val d1) (CHR '','')))\<rparr>))
      else (Some (Errorf (''unsupported argument: '' @ val)), d, h))"

text \<open>
  The loop \<^verbatim>\<open>for d.NextBlock(0) { ... }\<close>. Every round that goes on has moved the
  cursor forward, which is why the loop ends.
\<close>

lemma nextOnSameLine_cursor:
  assumes "nextOnSameLine d = (b, d1)"
  shows "tokens d1 = tokens d \<and> cursor d \<le> cursor d1 \<and>
         (b \<longrightarrow> cursor d1 = cursor d + 1 \<and> cursor d < int (length (tokens d)))"
  using assms by (auto simp: nextOnSameLine_def split: if_splits)

lemma Next_cursor:
  assumes "Next d = (b, d1)"
  shows "tokens d1 = tokens d \<and> cursor d \<le> cursor d1 \<and>
         (b \<longrightarrow> cursor d1 = cursor d + 1 \<and> cursor d < int (length (tokens d)))"
  using assms by (auto simp: Next_def split: if_splits)

lemma NextArg_cursor:
  assumes "NextArg d = (b, d1)"
  shows "tokens d1 = tokens d \<and> cursor d \<le> cursor d1"
  using assms nextOnSameLine_cursor [of d]
  by (auto simp: NextArg_def split: prod.splits bool.splits if_splits)

lemma Args_cursor:
  "Args n d = (ok, vs, d1) \<Longrightarrow> tokens d1 = tokens d \<and> cursor d \<le> cursor d1"
proof (induction n arbitrary: d ok vs d1)
  case 0
  then show ?case by simp
next
  case (Suc n)
  obtain b d' where na: "NextArg d = (b, d')"
    by (cases "NextArg d")
  show ?case
  proof (cases b)
    case False
    with na Suc.prems NextArg_cursor [OF na] show ?thesis by simp
  next
    case True
    obtain ok' vs' d'' where ar: "Args n d' = (ok', vs', d'')"
      by (cases "Args n d'")
    with na True Suc.prems have "d1 = d''" by simp
    with Suc.IH [OF ar] NextArg_cursor [OF na] show ?thesis by simp
  qed
qed

lemma Val_is_and_not_nextOnSameLine_cursor:
  assumes "Val_is_and_not_nextOnSameLine s d = (b, d1)"
  shows "tokens d1 = tokens d \<and> cursor d \<le> cursor d1 \<and> nesting d1 = nesting d"
  using assms
  by (auto simp: Val_is_and_not_nextOnSameLine_def nextOnSameLine_def split: if_splits)

lemma NextBlock_cursor:
  assumes "NextBlock n d = (True, d1)"
  shows "tokens d1 = tokens d \<and> cursor d < cursor d1 \<and> cursor d < int (length (tokens d))"
proof (cases "n < nesting d")
  case True
  obtain b da where nx: "Next d = (b, da)" by (cases "Next d")
  obtain b2 d2 where c1: "Val_is_and_not_nextOnSameLine ''}'' da = (b2, d2)"
    by (cases "Val_is_and_not_nextOnSameLine ''}'' da")
  obtain b3 d3 where c2: "Val_is_and_not_nextOnSameLine ''{'' d2 = (b3, d3)"
    by (cases "Val_is_and_not_nextOnSameLine ''{'' d2")
  from assms True nx have b: b
    by (cases b) (simp_all add: NextBlock_def)
  from assms True nx b c1 c2 have "tokens d1 = tokens d3 \<or> tokens d1 = tokens d2"
    and "cursor d1 = cursor d3 \<or> cursor d1 = cursor d2"
    by (auto simp: NextBlock_def split: bool.splits)
  with Next_cursor [OF nx] b Val_is_and_not_nextOnSameLine_cursor [OF c1]
    Val_is_and_not_nextOnSameLine_cursor [OF c2]
  show ?thesis by auto
next
  case False
  obtain b da where ns: "nextOnSameLine d = (b, da)" by (cases "nextOnSameLine d")
  obtain b2 d2 where nx: "Next da = (b2, d2)" by (cases "Next da")
  from assms False ns have b: b
    by (cases b) (simp_all add: NextBlock_def)
  from assms False ns b nx have "tokens d1 = tokens d2" and "cursor d1 = cursor d2"
    by (auto simp: NextBlock_def split: if_splits)
  with nextOnSameLine_cursor [OF ns] b Next_cursor [OF nx]
  show ?thesis by auto
qed

lemma directive_cursor:
  assumes "directive d h = (r, d1, h1)"
  shows "tokens d1 = tokens d \<and> cursor d \<le> cursor d1"
proof -
  obtain ok1 vs1 a1 where a1: "Args 1 d = (ok1, vs1, a1)" by (cases "Args 1 d")
  obtain ok3 vs3 a3 where a3: "Args 3 d = (ok3, vs3, a3)" by (cases "Args 3 d")
  obtain b dn where nx: "Next d = (b, dn)" by (cases "Next d")
  from assms a1 a3 nx have "d1 = a1 \<or> d1 = a3 \<or> d1 = dn \<or> d1 = d"
    by (auto simp: directive_def Let_def split: if_splits bool.splits)
  with Args_cursor [OF a1] Args_cursor [OF a3] Next_cursor [OF nx] show ?thesis
    by auto
qed

function block_loop :: "Dispenser \<Rightarrow> KafkaHandler \<Rightarrow> error option \<times> Dispenser \<times> KafkaHandler" where
  "block_loop d h =
     (case NextBlock 0 d of
        (False, d1) \<Rightarrow> (None, d1, h)
      | (True, d1) \<Rightarrow>
          (case directive d1 h of
             (Some e, d2, h2) \<Rightarrow> (Some e, d2, h2)
           | (None, d2, h2) \<Rightarrow> block_loop d2 h2))"
  by pat_completeness auto
termination
proof (relation "measure (\<lambda>(d, h). nat (int (length (tokens d)) - cursor d))")
  show "wf (measure (\<lambda>(d, h). nat (int (length (tokens d)) - cursor d)))"
    by simp
next
  fix d h b d1 r y d2 h2
  assume "(b, d1) = NextBlock 0 d" and "b = True"
    and "(r, y) = directive d1 h" and "r = None" and "(d2, h2) = y"
  then have nb: "NextBlock 0 d = (True, d1)" and dr: "directive d1 h = (r, d2, h2)"
    by simp_all
  from NextBlock_cursor [OF nb] directive_cursor [OF dr]
  show "((d2, h2), (d, h)) \<in> measure (\<lambda>(d, h). nat (int (length (tokens d)) - cursor d))"
    by simp
qed

definition UnmarshalCaddyfile :: "Dispenser \<Rightarrow> KafkaHandler \<Rightarrow> error option \<times> Dispenser \<times> KafkaHandler" where
  "UnmarshalCaddyfile d h =
     (case Next d of
        (False, d1) \<Rightarrow> (Some ArgErr, d1, h)
      | (True, d1) \<Rightarrow> block_loop d1 h)"

subsection \<open>Directive blocks as token lists\<close>

text \<open>
  The segment that Caddy hands to the handler for
  \<^verbatim>\<open>kafka {\<close> \<open>line\<^sub>1\<close> ... \<open>line\<^sub>n\<close> \<^verbatim>\<open>}\<close>: the name of the handler and the opening
  brace on the first line, then each directive line (the texts of its tokens) on a
  line of its own, then the closing brace on the last line. A token starts on the line
  that the token before it ends on, as the lexer counts lines.
\<close>

definition line_breaks :: "string list \<Rightarrow> int" where
  "line_breaks ts = (\<Sum>t\<leftarrow>ts. int (count_list t (CHR 0x0A)))"

fun line_tokens :: "int \<Rightarrow> string list \<Rightarrow> Token list" where
  "line_tokens l [] = []"
| "line_tokens l (t # ts) =
     \<lparr>File = ''Caddyfile'', Line = l, Text = t\<rparr> # line_tokens (l + line_breaks [t]) ts"

fun lines_tokens :: "int \<Rightarrow> string list list \<Rightarrow> Token list" where
  "lines_tokens l [] = [\<lparr>File = ''Caddyfile'', Line = l, Text = ''}''\<rparr>]"
| "lines_tokens l (ln # lns) = line_tokens l ln @ lines_tokens (l + line_breaks ln + 1) lns"

definition block_tokens :: "string list list \<Rightarrow> Token list" where
  "block_tokens lns = line_tokens 1 [''kafka'', ''{''] @ lines_tokens 2 lns"

text \<open>
  Parsing a directive block into a fresh handler: the configuration, or the parse error.
\<close>

definition parse_block :: "string list list \<Rightarrow> error + KafkaHandler" where
  "parse_block lns =
     (case UnmarshalCaddyfile (NewDispenser (block_tokens lns)) new_KafkaHandler of
        (Some e, d, h) \<Rightarrow> Inl e
      | (None, d, h) \<Rightarrow> Inr h)"

subsection \<open>Provision\<close>

text \<open>
  \<^verbatim>\<open>Provision\<close> builds the writer and stores it in the handler; here the writer is
  returned with the error result. Of \<^verbatim>\<open>kafka.Writer\<close>, \<^verbatim>\<open>kafka.Transport\<close> and
  \<^verbatim>\<open>tls.Config\<close> the fields that the source sets are modelled; \<open>Addr\<close> holds the
  addresses handed to \<^verbatim>\<open>kafka.TCP\<close>, not the address it builds from them. The constructor of the
  mechanism, \<^verbatim>\<open>scram.Mechanism\<close>, belongs to kafka-go: it is a parameter, a function
  that returns the mechanism (of an opaque type) or an error. A call of \<^verbatim>\<open>panic\<close>
  does not return: it is the outcome \<open>Panicked\<close>, apart from every returned result.
  The logger is left out.
\<close>

datatype scram_Algorithm = SHA256 | SHA512

record tls_Config =
  InsecureSkipVerify :: bool

record 'm Transport =
  TLS :: "tls_Config option"
  SASL :: "'m option"

record 'm Writer =
  Addr :: "string list"
  Async :: bool
  Transport :: "'m Transport"

datatype 'm provisioned = Returned "error option" "'m Writer" | Panicked error

definition Provision ::
  "(scram_Algorithm \<Rightarrow> string \<Rightarrow> string \<Rightarrow> error + 'm) \<Rightarrow> KafkaHandler \<Rightarrow> 'm provisioned" where
  "Provision scram_Mechanism h =
     (let transport =
            \<lparr>TLS = (if TLSEnabled h
                     then Some \<lparr>InsecureSkipVerify = (if TLSNoVerify h then True else False)\<rparr>
                     else None),
             SASL = None\<rparr>;
          writer =
            \<lparr>Addr = (case BootstrapServers h of None \<Rightarrow> [] | Some addrs \<Rightarrow> addrs),
             Async = True, Transport = transport\<rparr>
      in
      if SASLAuth h then
        (case (if SASLAlgorithm h = SASLMethodSHA256 then Inr SHA256
               else if SASLAlgorithm h = SASLMethodSHA512 then Inr SHA512
               else Inl (Errorf (''invalid sasl algorithm: '' @ SASLAlgorithm h))) of
           Inl err \<Rightarrow> Returned (Some err) writer
         | Inr method \<Rightarrow>
             (case scram_Mechanism method (SASLUsername h) (SASLPassword h) of
                Inl err \<Rightarrow> Panicked err
              | Inr mechanism \<Rightarrow>
                  Returned None (writer\<lparr>Transport := transport\<lparr>SASL := Some mechanism\<rparr>\<rparr>)))
      else Returned None writer)"

text \<open>
  A stand-in for \<^verbatim>\<open>scram.Mechanism\<close> as far as the examples need it: the constructor
  prepares username and password with SASLprep, which prohibits the ASCII control
  characters, and fails on a username or a password that holds one.
\<close>

definition ascii_control :: "char \<Rightarrow> bool" where
  "ascii_control c = ((of_char c :: nat) < 0x20 \<or> (of_char c :: nat) = 0x7F)"

definition control_refusing_Mechanism ::
  "scram_Algorithm \<Rightarrow> string \<Rightarrow> string \<Rightarrow> error + unit" where
  "control_refusing_Mechanism algo username password =
     (if list_ex ascii_control username then Inl (Errorf ''Error SASLprepping username'')
      else if list_ex ascii_control password then Inl (Errorf ''Error SASLprepping password'')
      else Inr ())"

subsection \<open>Handle\<close>

text \<open>
  The envelope \<^verbatim>\<open>e.CloudEvent()\<close> of the event is the input of the model: the accessor
  belongs to Caddy and returns the same envelope at each of its three calls. Instants
  of time are integers. \<^verbatim>\<open>json.Marshal\<close> and the writer's \<^verbatim>\<open>WriteMessages\<close> are
  parameters: the first returns the bytes or an error, the second the error, if any,
  of submitting the messages. \<^verbatim>\<open>Handle\<close> returns its error result and, with it, the
  messages it has handed to the writer.
\<close>

record CloudEvent =
  ID :: string
  Source :: string
  SpecVersion :: string
  Type :: string
  Time :: int
  DataContentType :: string
  Data :: string

text \<open>
  \<^verbatim>\<open>kafka.Message\<close>; its fields \<^verbatim>\<open>Topic\<close> and \<^verbatim>\<open>Time\<close> are \<open>Topic_msg\<close> and \<open>Time_msg\<close>
  here, apart from the fields of the same names of the handler and of the envelope.
\<close>

record Message =
  Key :: string
  Value :: string
  Topic_msg :: string
  Time_msg :: int

definition Handle ::
  "(CloudEvent \<Rightarrow> error + string) \<Rightarrow> (Message list \<Rightarrow> error option) \<Rightarrow>
   KafkaHandler \<Rightarrow> CloudEvent \<Rightarrow> error option \<times> Message list" where
  "Handle json_Marshal WriteMessages h ce =
     (case json_Marshal ce of
        Inl err \<Rightarrow> (Some (Errorf (''failed to serialize event data: '' @ Error err)), [])
      | Inr data \<Rightarrow>
          (let msgs = [\<lparr>Key = ID ce, Value = data, Topic_msg = Topic h, Time_msg = Time ce\<rparr>] in
           case WriteMessages msgs of
             Some err \<Rightarrow> (Some (Errorf (''failed to write event to Kafka: '' @ Error err)), msgs)
           | None \<Rightarrow> (None, msgs)))"

subsection \<open>What the split and the trimming are to achieve\<close>

text \<open>
  \<open>t\<close> is \<open>s\<close> with its surrounding white space removed: \<open>s\<close> is \<open>t\<close> between two
  runs of white-space runes, and \<open>t\<close> neither starts nor ends with such a rune.
\<close>

definition trimmed :: "string \<Rightarrow> string \<Rightarrow> bool" where
  "trimmed s t =
     ((\<exists>ls rs. set ls \<subseteq> set space_runes \<and> set rs \<subseteq> set space_runes \<and>
         s = concat ls @ t @ concat rs) \<and>
      (\<forall>e \<in> set space_runes. \<not> prefix e t \<and> \<not> suffix e t))"

subsection \<open>The invariants of the configuration, in the specification's words\<close>

text \<open>
  The invariants that validation is to enforce: the bootstrap addresses and the topic
  are non-empty and, when SASL is enabled, so are the username and the password, and
  the algorithm is one of \<^verbatim>\<open>sha256\<close> and \<^verbatim>\<open>sha512\<close>.
\<close>

definition bootstrap_servers_nonempty :: "KafkaHandler \<Rightarrow> bool" where
  "bootstrap_servers_nonempty h = (0 < len (BootstrapServers h))"

definition topic_nonempty :: "KafkaHandler \<Rightarrow> bool" where
  "topic_nonempty h = (Topic h \<noteq> [])"

definition sasl_username_nonempty :: "KafkaHandler \<Rightarrow> bool" where
  "sasl_username_nonempty h = (SASLAuth h \<longrightarrow> SASLUsername h \<noteq> [])"

definition sasl_password_nonempty :: "KafkaHandler \<Rightarrow> bool" where
  "sasl_password_nonempty h = (SASLAuth h \<longrightarrow> SASLPassword h \<noteq> [])"

definition sasl_algorithm_recognized :: "KafkaHandler \<Rightarrow> bool" where
  "sasl_algorithm_recognized h =
     (SASLAuth h \<longrightarrow> SASLAlgorithm h = ''sha256'' \<or> SASLAlgorithm h = ''sha512'')"

definition config_invariants :: "KafkaHandler \<Rightarrow> bool" where
  "config_invariants h =
     (bootstrap_servers_nonempty h \<and> topic_nonempty h \<and> sasl_username_nonempty h \<and>
      sasl_password_nonempty h \<and> sasl_algorithm_recognized h)"

text \<open>The number of invariants that a configuration violates.\<close>

definition violations :: "KafkaHandler \<Rightarrow> nat" where
  "violations h =
     length (filter Not
       [bootstrap_servers_nonempty h, topic_nonempty h, sasl_username_nonempty h,
        sasl_password_nonempty h, sasl_algorithm_recognized h])"

text \<open>
  The rules of validation in the order the specification lists them, each with the
  error that \<^verbatim>\<open>Validate\<close> returns for it. The rule of the password carries the text of
  the rule of the username: that is the text the source returns there.
\<close>

definition validation_rules :: "((KafkaHandler \<Rightarrow> bool) \<times> error) list" where
  "validation_rules =
     [(bootstrap_servers_nonempty, Errorf ''kafka bootstrap_servers missing''),
      (topic_nonempty, Errorf ''kafka topic missing''),
      (sasl_username_nonempty, Errorf ''kafka missing sasl username''),
      (sasl_password_nonempty, Errorf ''kafka missing sasl username''),
      (sasl_algorithm_recognized, Errorf ''kafka invalid sasl algorithm'')]"

text \<open>A message mentions a word when the word is a contiguous part of it.\<close>

definition mentions :: "error \<Rightarrow> string \<Rightarrow> bool" where
  "mentions e w = sublist w (Error e)"

section \<open>Validation\<close>

lemmas invariant_defs =
  bootstrap_servers_nonempty_def topic_nonempty_def sasl_username_nonempty_def
  sasl_password_nonempty_def sasl_algorithm_recognized_def

lemma len_eq_0_iff: "len s = 0 \<longleftrightarrow> s = None \<or> s = Some []"
  by (cases s) (simp_all add: len_def)

lemma len_pos_iff: "0 < len s \<longleftrightarrow> (\<exists>x xs. s = Some (x # xs))"
  by (cases s) (auto simp: len_def neq_Nil_conv)

lemma Validate_None_iff: "Validate h = None \<longleftrightarrow> config_invariants h"
  by (auto simp: Validate_def config_invariants_def invariant_defs len_eq_0_iff len_pos_iff
      neq_Nil_conv)

lemma Validate_error_cases:
  assumes "Validate h = Some e"
  obtains "e = Errorf ''kafka bootstrap_servers missing''"
    | "e = Errorf ''kafka topic missing''"
    | "e = Errorf ''kafka missing sasl username''"
    | "e = Errorf ''kafka invalid sasl algorithm''"
  using assms unfolding Validate_def by (auto split: if_splits)

text \<open>
  Claim C2. Validation succeeds exactly when the invariants of the configuration hold:
  non-empty bootstrap addresses, non-empty topic and, with SASL enabled, non-empty
  username and password and an algorithm among sha256 and sha512. A configuration
  that violates exactly one invariant is refused with a configuration error.
\<close>

theorem Validate_iff_invariants:
  "(Validate h = None \<longleftrightarrow> config_invariants h) \<and>
   (violations h = 1 \<longrightarrow> (\<exists>msg. Validate h = Some (Errorf msg)))"
proof
  show "Validate h = None \<longleftrightarrow> config_invariants h"
    by (rule Validate_None_iff)
next
  show "violations h = 1 \<longrightarrow> (\<exists>msg. Validate h = Some (Errorf msg))"
  proof
    assume one: "violations h = 1"
    have "\<not> config_invariants h"
    proof
      assume "config_invariants h"
      then have "violations h = 0"
        by (simp add: config_invariants_def violations_def)
      with one show False by simp
    qed
    then obtain e where e: "Validate h = Some e"
      using Validate_None_iff [of h] by (cases "Validate h") auto
    from e show "\<exists>msg. Validate h = Some (Errorf msg)"
      by (cases rule: Validate_error_cases) (use e in blast)+
  qed
qed

theorem Validate_iff_invariants_witness:
  "Validate (new_KafkaHandler\<lparr>BootstrapServers := Some [''localhost:9092''],
      Topic := ''events''\<rparr>) = None \<and>
   config_invariants (new_KafkaHandler\<lparr>BootstrapServers := Some [''localhost:9092''],
      Topic := ''events''\<rparr>) \<and>
   violations (new_KafkaHandler\<lparr>BootstrapServers := Some [''localhost:9092'']\<rparr>) = 1 \<and>
   Validate (new_KafkaHandler\<lparr>BootstrapServers := Some [''localhost:9092'']\<rparr>) =
     Some (Errorf ''kafka topic missing'')"
proof -
  let ?ok = "new_KafkaHandler\<lparr>BootstrapServers := Some [''localhost:9092''],
      Topic := ''events''\<rparr>"
  let ?bad = "new_KafkaHandler\<lparr>BootstrapServers := Some [''localhost:9092'']\<rparr>"
  have inv: "config_invariants ?ok"
    by (simp add: config_invariants_def invariant_defs new_KafkaHandler_def len_def)
  have one: "violations ?bad = 1"
    by (simp add: violations_def invariant_defs new_KafkaHandler_def len_def)
  from Validate_iff_invariants [of ?ok] inv have ok: "Validate ?ok = None"
    by simp
  from Validate_iff_invariants [of ?bad] one
  obtain msg where "Validate ?bad = Some (Errorf msg)"
    by blast
  moreover have "Validate ?bad = Some (Errorf ''kafka topic missing'')"
    by (simp add: Validate_def new_KafkaHandler_def len_def)
  ultimately show ?thesis using inv one ok by simp
qed

text \<open>
  Claim C3. The rules are checked in a fixed order and the first failure wins: when
  the rule at position \<open>i\<close> of the order (bootstrap addresses, topic, SASL username,
  SASL password, SASL algorithm) is violated and every earlier rule holds, validation
  returns the error of rule \<open>i\<close>, whatever the later rules say. A configuration with
  empty bootstrap addresses and an empty topic gets the error of the bootstrap addresses.
\<close>

theorem Validate_first_failure_wins:
  assumes "i < length validation_rules"
    and "\<not> fst (validation_rules ! i) h"
    and "\<forall>j<i. fst (validation_rules ! j) h"
  shows "Validate h = Some (snd (validation_rules ! i))"
proof -
  from assms(1) consider "i = 0" | "i = 1" | "i = 2" | "i = 3" | "i = 4"
    by (auto simp: validation_rules_def less_Suc_eq numeral_eq_Suc)
  then show ?thesis
  proof cases
    case 1
    with assms(2) show ?thesis
      by (simp add: validation_rules_def Validate_def bootstrap_servers_nonempty_def
          len_eq_0_iff)
  next
    case 2
    with assms(3) have "fst (validation_rules ! 0) h" by simp
    with 2 assms(2) show ?thesis
      by (auto simp: validation_rules_def Validate_def bootstrap_servers_nonempty_def
          topic_nonempty_def len_pos_iff)
  next
    case 3
    with assms(3) have "fst (validation_rules ! 0) h" "fst (validation_rules ! 1) h"
      by simp_all
    with 3 assms(2) show ?thesis
      by (auto simp: validation_rules_def Validate_def invariant_defs len_pos_iff)
  next
    case 4
    with assms(3) have "fst (validation_rules ! 0) h" "fst (validation_rules ! 1) h"
      "fst (validation_rules ! 2) h"
      by simp_all
    with 4 assms(2) show ?thesis
      by (auto simp: validation_rules_def Validate_def invariant_defs len_pos_iff)
  next
    case 5
    with assms(3) have "fst (validation_rules ! 0) h" "fst (validation_rules ! 1) h"
      "fst (validation_rules ! 2) h" "fst (validation_rules ! 3) h"
      by simp_all
    with 5 assms(2) show ?thesis
      by (auto simp: validation_rules_def Validate_def invariant_defs len_pos_iff)
  qed
qed

theorem Validate_first_failure_wins_witness:
  "len (BootstrapServers new_KafkaHandler) = 0 \<and> Topic new_KafkaHandler = [] \<and>
   Validate new_KafkaHandler = Some (Errorf ''kafka bootstrap_servers missing'') \<and>
   Validate (new_KafkaHandler\<lparr>BootstrapServers := Some [''a:1''], SASLAuth := True\<rparr>) =
     Some (Errorf ''kafka topic missing'')"
proof -
  let ?h = "new_KafkaHandler\<lparr>BootstrapServers := Some [''a:1''], SASLAuth := True\<rparr>"
  have "Validate new_KafkaHandler = Some (snd (validation_rules ! 0))"
    by (rule Validate_first_failure_wins)
      (simp_all add: validation_rules_def invariant_defs new_KafkaHandler_def len_def)
  moreover have "Validate ?h = Some (snd (validation_rules ! 1))"
    by (rule Validate_first_failure_wins)
      (simp_all add: validation_rules_def invariant_defs new_KafkaHandler_def len_def)
  ultimately show ?thesis
    by (simp add: validation_rules_def new_KafkaHandler_def len_def)
qed

text \<open>
  Claim C9, as stated: every configuration with SASL enabled, a non-empty username
  and an empty password gets the error "kafka missing sasl username". It fails where
  an earlier rule fails first: with nil bootstrap addresses the error is the one of
  the bootstrap addresses.
\<close>

theorem Validate_empty_password_counterexample:
  "SASLAuth (new_KafkaHandler\<lparr>SASLAuth := True, SASLUsername := ''user''\<rparr>) \<and>
   SASLUsername (new_KafkaHandler\<lparr>SASLAuth := True, SASLUsername := ''user''\<rparr>) \<noteq> [] \<and>
   SASLPassword (new_KafkaHandler\<lparr>SASLAuth := True, SASLUsername := ''user''\<rparr>) = [] \<and>
   Validate (new_KafkaHandler\<lparr>SASLAuth := True, SASLUsername := ''user''\<rparr>) =
     Some (Errorf ''kafka bootstrap_servers missing'') \<and>
   Validate (new_KafkaHandler\<lparr>SASLAuth := True, SASLUsername := ''user''\<rparr>) \<noteq>
     Some (Errorf ''kafka missing sasl username'')"
  by (simp add: new_KafkaHandler_def Validate_def len_def)

text \<open>
  Claim C9, amended. For every configuration with non-empty bootstrap addresses and
  a non-empty topic that has SASL enabled, a non-empty username and an empty password,
  validation returns the error "kafka missing sasl username", the text it also returns
  when the username is empty; and no error of validation, for any configuration,
  mentions the word "password".
\<close>

theorem Validate_empty_password_message:
  assumes "bootstrap_servers_nonempty h" and "topic_nonempty h"
    and "SASLAuth h" and "SASLUsername h \<noteq> []" and "SASLPassword h = []"
  shows "Validate h = Some (Errorf ''kafka missing sasl username'') \<and>
         Validate (h\<lparr>SASLUsername := []\<rparr>) = Some (Errorf ''kafka missing sasl username'') \<and>
         (\<forall>g e. Validate g = Some e \<longrightarrow> \<not> mentions e ''password'')"
proof (intro conjI allI impI)
  from assms show "Validate h = Some (Errorf ''kafka missing sasl username'')"
    by (auto simp: Validate_def bootstrap_servers_nonempty_def topic_nonempty_def len_pos_iff)
next
  from assms show "Validate (h\<lparr>SASLUsername := []\<rparr>) = Some (Errorf ''kafka missing sasl username'')"
    by (auto simp: Validate_def bootstrap_servers_nonempty_def topic_nonempty_def len_pos_iff)
next
  fix g e
  assume "Validate g = Some e"
  then show "\<not> mentions e ''password''"
  proof (cases rule: Validate_error_cases)
    case 1
    have "\<not> sublist ''password'' ''kafka bootstrap_servers missing''" by code_simp
    with 1 show ?thesis by (simp only: mentions_def Error.simps not_False_eq_True)
  next
    case 2
    have "\<not> sublist ''password'' ''kafka topic missing''" by code_simp
    with 2 show ?thesis by (simp only: mentions_def Error.simps not_False_eq_True)
  next
    case 3
    have "\<not> sublist ''password'' ''kafka missing sasl username''" by code_simp
    with 3 show ?thesis by (simp only: mentions_def Error.simps not_False_eq_True)
  next
    case 4
    have "\<not> sublist ''password'' ''kafka invalid sasl algorithm''" by code_simp
    with 4 show ?thesis by (simp only: mentions_def Error.simps not_False_eq_True)
  qed
qed

theorem Validate_empty_password_message_witness:
  "Validate (new_KafkaHandler\<lparr>BootstrapServers := Some [''a:1''], Topic := ''t'',
      SASLAuth := True, SASLUsername := ''user''\<rparr>) =
     Some (Errorf ''kafka missing sasl username'') \<and>
   Validate (new_KafkaHandler\<lparr>BootstrapServers := Some [''a:1''], Topic := ''t'',
      SASLAuth := True\<rparr>) = Some (Errorf ''kafka missing sasl username'')"
proof -
  let ?h = "new_KafkaHandler\<lparr>BootstrapServers := Some [''a:1''], Topic := ''t'',
      SASLAuth := True, SASLUsername := ''user''\<rparr>"
  have "Validate ?h = Some (Errorf ''kafka missing sasl username'') \<and>
        Validate (?h\<lparr>SASLUsername := []\<rparr>) = Some (Errorf ''kafka missing sasl username'') \<and>
        (\<forall>g e. Validate g = Some e \<longrightarrow> \<not> mentions e ''password'')"
    by (rule Validate_empty_password_message)
      (simp_all add: invariant_defs new_KafkaHandler_def len_def)
  then show ?thesis
    by (simp add: new_KafkaHandler_def)
qed

section \<open>The string functions\<close>

declare TrimLeft.simps [simp del] TrimRight.simps [simp del] block_loop.simps [simp del]

lemma Split_not_Nil: "Split s sep \<noteq> []"
  by (induction s) (auto split: list.splits)

lemma Join_Cons: "ps \<noteq> [] \<Longrightarrow> Join (p # ps) sep = p @ sep @ Join ps sep"
  by (cases ps) simp_all

lemma Join_Split: "Join (Split s sep) [sep] = s"
proof (induction s)
  case Nil
  then show ?case by simp
next
  case (Cons c cs)
  obtain p ps where sp: "Split cs sep = p # ps"
    using Split_not_Nil [of cs sep] by (cases "Split cs sep") auto
  show ?case
  proof (cases "c = sep")
    case True
    with Cons sp show ?thesis by (simp add: Join_Cons)
  next
    case False
    with Cons sp show ?thesis by (cases ps) auto
  qed
qed

lemma Split_no_sep: "p \<in> set (Split s sep) \<Longrightarrow> sep \<notin> set p"
  by (induction s arbitrary: p) (auto split: if_splits list.splits)

lemma length_Split: "length (Split s sep) = Suc (count_list s sep)"
  by (induction s) (auto split: list.splits simp: Split_not_Nil)

lemma space_runes_not_Nil: "e \<in> set space_runes \<Longrightarrow> e \<noteq> []"
  by (auto simp: space_runes_def)

lemma TrimLeft_decomp:
  "\<exists>ls. set ls \<subseteq> set space_runes \<and> s = concat ls @ TrimLeft s"
proof (induction s rule: TrimLeft.induct)
  case (1 s)
  show ?case
  proof (cases "find (\<lambda>e. e \<noteq> [] \<and> prefix e s) space_runes")
    case None
    then have "TrimLeft s = s" by (simp add: TrimLeft.simps [of s])
    then have "set [] \<subseteq> set space_runes \<and> s = concat [] @ TrimLeft s" by simp
    then show ?thesis by blast
  next
    case (Some e)
    then have e: "e \<in> set space_runes" "prefix e s"
      by (auto simp: find_Some_iff)
    from Some have tl: "TrimLeft s = TrimLeft (drop (length e) s)"
      by (simp add: TrimLeft.simps [of s])
    from "1" [OF Some] obtain ls where ls: "set ls \<subseteq> set space_runes"
      "drop (length e) s = concat ls @ TrimLeft (drop (length e) s)"
      by blast
    from e(2) have "s = e @ drop (length e) s"
      by (auto simp: prefix_def)
    with ls tl have "s = concat (e # ls) @ TrimLeft s" by simp
    moreover from e(1) ls(1) have "set (e # ls) \<subseteq> set space_runes" by simp
    ultimately show ?thesis by blast
  qed
qed

lemma TrimLeft_no_prefix: "e \<in> set space_runes \<Longrightarrow> \<not> prefix e (TrimLeft s)"
proof (induction s rule: TrimLeft.induct)
  case (1 s)
  show ?case
  proof (cases "find (\<lambda>e. e \<noteq> [] \<and> prefix e s) space_runes")
    case None
    then have "TrimLeft s = s" by (simp add: TrimLeft.simps [of s])
    with None "1.prems" space_runes_not_Nil [of e] show ?thesis
      by (auto simp: find_None_iff)
  next
    case (Some e')
    then have "TrimLeft s = TrimLeft (drop (length e') s)"
      by (simp add: TrimLeft.simps [of s])
    with "1.IH" [OF Some "1.prems"] show ?thesis by simp
  qed
qed

lemma TrimRight_decomp:
  "\<exists>rs. set rs \<subseteq> set space_runes \<and> s = TrimRight s @ concat rs"
proof (induction s rule: TrimRight.induct)
  case (1 s)
  show ?case
  proof (cases "find (\<lambda>e. e \<noteq> [] \<and> suffix e s) space_runes")
    case None
    then have "TrimRight s = s" by (simp add: TrimRight.simps [of s])
    then have "set [] \<subseteq> set space_runes \<and> s = TrimRight s @ concat []" by simp
    then show ?thesis by blast
  next
    case (Some e)
    then have e: "e \<in> set space_runes" "suffix e s"
      by (auto simp: find_Some_iff)
    from e(2) obtain t where t: "s = t @ e"
      by (auto simp: suffix_def)
    then have tk: "take (length s - length e) s = t" by simp
    from Some tk have tr: "TrimRight s = TrimRight t"
      by (simp add: TrimRight.simps [of s])
    from "1" [OF Some] tk obtain rs where rs: "set rs \<subseteq> set space_runes"
      "t = TrimRight t @ concat rs"
      by auto
    from t rs(2) have "s = (TrimRight t @ concat rs) @ e" by simp
    with tr have "s = TrimRight s @ concat (rs @ [e])" by simp
    moreover from e(1) rs(1) have "set (rs @ [e]) \<subseteq> set space_runes" by simp
    ultimately show ?thesis by blast
  qed
qed

lemma TrimRight_no_suffix: "e \<in> set space_runes \<Longrightarrow> \<not> suffix e (TrimRight s)"
proof (induction s rule: TrimRight.induct)
  case (1 s)
  show ?case
  proof (cases "find (\<lambda>e. e \<noteq> [] \<and> suffix e s) space_runes")
    case None
    then have "TrimRight s = s" by (simp add: TrimRight.simps [of s])
    with None "1.prems" space_runes_not_Nil [of e] show ?thesis
      by (auto simp: find_None_iff)
  next
    case (Some e')
    then have "TrimRight s = TrimRight (take (length s - length e') s)"
      by (simp add: TrimRight.simps [of s])
    with "1.IH" [OF Some "1.prems"] show ?thesis by simp
  qed
qed

lemma TrimRight_prefix: "prefix (TrimRight s) s"
proof -
  from TrimRight_decomp [of s] obtain rs where "s = TrimRight s @ concat rs"
    by blast
  then show ?thesis by (rule prefixI)
qed

lemma trimmed_TrimSpace: "trimmed s (TrimSpace s)"
proof -
  from TrimLeft_decomp [of s] obtain ls
    where ls: "set ls \<subseteq> set space_runes" "s = concat ls @ TrimLeft s"
    by blast
  from TrimRight_decomp [of "TrimLeft s"] obtain rs
    where rs: "set rs \<subseteq> set space_runes" "TrimLeft s = TrimSpace s @ concat rs"
    by (auto simp: TrimSpace_def)
  from ls(2) rs(2) have "s = concat ls @ TrimSpace s @ concat rs"
    by simp
  with ls(1) rs(1) have parts: "\<exists>ls rs. set ls \<subseteq> set space_runes \<and>
      set rs \<subseteq> set space_runes \<and> s = concat ls @ TrimSpace s @ concat rs"
    by blast
  have ends: "\<not> prefix e (TrimSpace s) \<and> \<not> suffix e (TrimSpace s)"
    if e: "e \<in> set space_runes" for e
  proof
    show "\<not> prefix e (TrimSpace s)"
    proof
      assume "prefix e (TrimSpace s)"
      from this TrimRight_prefix [of "TrimLeft s"] have "prefix e (TrimLeft s)"
        unfolding TrimSpace_def by (rule prefix_order.trans)
      with TrimLeft_no_prefix [OF e] show False by simp
    qed
    from TrimRight_no_suffix [OF e] show "\<not> suffix e (TrimSpace s)"
      by (simp add: TrimSpace_def)
  qed
  from parts ends show ?thesis
    unfolding trimmed_def by blast
qed

section \<open>The directive parser\<close>

lemmas parse_defs =
  parse_block_def UnmarshalCaddyfile_def NewDispenser_def block_tokens_def line_breaks_def
  Next_def NextBlock_def nextOnSameLine_def NextArg_def Val_def isNextOnNewLine_def
  NumLineBreaks_def Val_is_and_not_nextOnSameLine_def directive_def target_def
  block_loop.simps new_KafkaHandler_def SASLMethodSHA256_def SASLMethodSHA512_def
  numeral_3_eq_3







lemma parse_bootstrap_servers:
  "parse_block [[''bootstrap_servers'', v]] =
     Inr (new_KafkaHandler\<lparr>BootstrapServers := Some (map TrimSpace (Split v (CHR '','')))\<rparr>)"
  by (simp add: parse_defs)

lemma directive_sasl_algorithm_recognized:
  assumes "directive d h = (None, d1, h1)" and "sasl_algorithm_recognized h"
  shows "sasl_algorithm_recognized h1"
proof -
  obtain ok1 vs1 a1 where a1: "Args 1 d = (ok1, vs1, a1)" by (cases "Args 1 d")
  obtain ok3 vs3 a3 where a3: "Args 3 d = (ok3, vs3, a3)" by (cases "Args 3 d")
  obtain b dn where nx: "Next d = (b, dn)" by (cases "Next d")
  from assms(1) a1 a3 nx
  have "(SASLAuth h1 = SASLAuth h \<and> SASLAlgorithm h1 = SASLAlgorithm h) \<or>
        SASLAlgorithm h1 = ''sha256'' \<or> SASLAlgorithm h1 = ''sha512''"
    by (auto simp: directive_def Let_def SASLMethodSHA256_def SASLMethodSHA512_def
        split: if_splits bool.splits)
  with assms(2) show ?thesis
    by (auto simp: sasl_algorithm_recognized_def)
qed

lemma block_loop_sasl_algorithm_recognized:
  "block_loop d h = (None, d1, h1) \<Longrightarrow> sasl_algorithm_recognized h \<Longrightarrow>
   sasl_algorithm_recognized h1"
proof (induction d h rule: block_loop.induct)
  case (1 d h)
  obtain b dn where nb: "NextBlock 0 d = (b, dn)" by (cases "NextBlock 0 d")
  show ?case
  proof (cases b)
    case False
    with nb "1.prems" show ?thesis
      by (simp add: block_loop.simps [of d h])
  next
    case True
    obtain r d2 h2 where dr: "directive dn h = (r, d2, h2)"
      by (cases "directive dn h")
    show ?thesis
    proof (cases r)
      case (Some e)
      with nb True dr "1.prems"(1) show ?thesis
        by (simp add: block_loop.simps [of d h])
    next
      case None
      with nb True dr "1.prems"(1) have rec: "block_loop d2 h2 = (None, d1, h1)"
        by (simp add: block_loop.simps [of d h])
      from dr None "1.prems"(2) have inv: "sasl_algorithm_recognized h2"
        by (auto intro: directive_sasl_algorithm_recognized)
      from nb True dr None
      show ?thesis
        by (intro "1.IH" [of b dn r "(d2, h2)" d2 h2] rec inv) simp_all
    qed
  qed
qed




text \<open>
  Claim C5. For every argument \<open>v\<close> of the directive \<^verbatim>\<open>bootstrap_servers\<close>, the parsed
  addresses are the pieces of \<open>v\<close> between its commas, in their order (joined with
  commas they give \<open>v\<close> back, and no piece holds a comma), each with its surrounding
  white space removed; \<^verbatim>\<open>" a:1 , b:2 "\<close> yields \<^verbatim>\<open>["a:1", "b:2"]\<close>.
\<close>

theorem parse_bootstrap_servers_split_trim:
  "parse_block [[''bootstrap_servers'', v]] =
     Inr (new_KafkaHandler\<lparr>BootstrapServers := Some (map TrimSpace (Split v (CHR '','')))\<rparr>) \<and>
   Join (Split v (CHR '','')) '','' = v \<and>
   (\<forall>p \<in> set (Split v (CHR '','')). CHR '','' \<notin> set p \<and> trimmed p (TrimSpace p))"
proof (intro conjI ballI)
  show "parse_block [[''bootstrap_servers'', v]] =
      Inr (new_KafkaHandler\<lparr>BootstrapServers :=
             Some (map TrimSpace (Split v (CHR '','')))\<rparr>)"
    by (rule parse_bootstrap_servers)
next
  show "Join (Split v (CHR '','')) '','' = v"
    by (rule Join_Split)
next
  fix p
  assume "p \<in> set (Split v (CHR '',''))"
  then show "CHR '','' \<notin> set p"
    by (rule Split_no_sep)
next
  fix p
  show "trimmed p (TrimSpace p)"
    by (rule trimmed_TrimSpace)
qed

theorem parse_bootstrap_servers_split_trim_witness:
  "parse_block [[''bootstrap_servers'', '' a:1 , b:2 '']] =
     Inr (new_KafkaHandler\<lparr>BootstrapServers := Some [''a:1'', ''b:2'']\<rparr>) \<and>
   trimmed '' a:1 '' ''a:1''"
proof -
  have ev: "map TrimSpace (Split '' a:1 , b:2 '' (CHR '','')) = [''a:1'', ''b:2'']"
    by code_simp
  have sp: "Split '' a:1 , b:2 '' (CHR '','') = ['' a:1 '', '' b:2 '']"
    by code_simp
  have tr: "TrimSpace '' a:1 '' = ''a:1''"
    by code_simp
  note inst = parse_bootstrap_servers_split_trim [of "'' a:1 , b:2 ''"]
  from inst ev
  have "parse_block [[''bootstrap_servers'', '' a:1 , b:2 '']] =
      Inr (new_KafkaHandler\<lparr>BootstrapServers := Some [''a:1'', ''b:2'']\<rparr>)"
    by (simp only:)
  moreover from inst have "\<forall>p \<in> set ['' a:1 '', '' b:2 '']. trimmed p (TrimSpace p)"
    by (simp only: sp) blast
  then have "trimmed '' a:1 '' (TrimSpace '' a:1 '')"
    by (simp only: list.set) blast
  ultimately show ?thesis
    by (simp only: tr simp_thms)
qed

text \<open>
  Claim C7, at the input where the source departs from it. The directive
  \<^verbatim>\<open>bootstrap_servers\<close> takes its argument with \<^verbatim>\<open>Next\<close>, which does not stop at the
  end of the line: written without an argument, it takes the first token of the next
  line. The unknown directive \<^verbatim>\<open>foo\<close> on the line after it becomes the address list
  and the parse succeeds. The same \<^verbatim>\<open>foo\<close> is a parse error when it stands first in
  the block, and after \<^verbatim>\<open>topic\<close>, which reads its argument with \<^verbatim>\<open>Args\<close>, the missing
  argument is the error.
\<close>

theorem parse_unknown_directive_after_bootstrap_servers:
  "parse_block [[''bootstrap_servers''], [''foo'']] =
     Inr (new_KafkaHandler\<lparr>BootstrapServers := Some [''foo'']\<rparr>) \<and>
   parse_block [[''foo''], [''bootstrap_servers'']] =
     Inl (Errorf ''unsupported argument: foo'') \<and>
   parse_block [[''topic''], [''foo'']] = Inl ArgErr"
  by code_simp

text \<open>
  Claim C8. Splitting any argument \<open>v\<close> on the comma yields at least one piece, so
  after \<^verbatim>\<open>bootstrap_servers v\<close> the address list is never empty. Parsing
  \<^verbatim>\<open>bootstrap_servers ""\<close> gives the list of one empty address, and validation does
  not miss the bootstrap addresses in it: with a topic, the configuration is valid.
\<close>

theorem parse_bootstrap_servers_never_empty:
  "Split v (CHR '','') \<noteq> [] \<and>
   (\<exists>addrs. parse_block [[''bootstrap_servers'', v]] =
        Inr (new_KafkaHandler\<lparr>BootstrapServers := Some addrs\<rparr>) \<and> 0 < length addrs) \<and>
   parse_block [[''bootstrap_servers'', []]] =
     Inr (new_KafkaHandler\<lparr>BootstrapServers := Some [[]]\<rparr>) \<and>
   Validate (new_KafkaHandler\<lparr>BootstrapServers := Some [[]]\<rparr>) \<noteq>
     Some (Errorf ''kafka bootstrap_servers missing'') \<and>
   parse_block [[''bootstrap_servers'', []], [''topic'', ''events'']] =
     Inr (new_KafkaHandler\<lparr>BootstrapServers := Some [[]], Topic := ''events''\<rparr>) \<and>
   Validate (new_KafkaHandler\<lparr>BootstrapServers := Some [[]], Topic := ''events''\<rparr>) = None"
proof (intro conjI)
  show "Split v (CHR '','') \<noteq> []"
    by (rule Split_not_Nil)
next
  have "0 < length (map TrimSpace (Split v (CHR '','')))"
    by (simp add: Split_not_Nil)
  with parse_bootstrap_servers [of v]
  show "\<exists>addrs. parse_block [[''bootstrap_servers'', v]] =
        Inr (new_KafkaHandler\<lparr>BootstrapServers := Some addrs\<rparr>) \<and> 0 < length addrs"
    by blast
next
  have "map TrimSpace (Split [] (CHR '','')) = [[]]"
    by code_simp
  with parse_bootstrap_servers [of "[]"]
  show "parse_block [[''bootstrap_servers'', []]] =
      Inr (new_KafkaHandler\<lparr>BootstrapServers := Some [[]]\<rparr>)"
    by (simp only:)
next
  show "Validate (new_KafkaHandler\<lparr>BootstrapServers := Some [[]]\<rparr>) \<noteq>
      Some (Errorf ''kafka bootstrap_servers missing'')"
    by (simp add: Validate_def new_KafkaHandler_def len_def)
next
  show "parse_block [[''bootstrap_servers'', []], [''topic'', ''events'']] =
      Inr (new_KafkaHandler\<lparr>BootstrapServers := Some [[]], Topic := ''events''\<rparr>)"
    by code_simp
next
  show "Validate (new_KafkaHandler\<lparr>BootstrapServers := Some [[]], Topic := ''events''\<rparr>) = None"
    by (simp add: Validate_def new_KafkaHandler_def len_def)
qed

theorem parse_bootstrap_servers_never_empty_witness:
  "Split ''a:1,,b:2'' (CHR '','') \<noteq> [] \<and>
   parse_block [[''bootstrap_servers'', []]] =
     Inr (new_KafkaHandler\<lparr>BootstrapServers := Some [[]]\<rparr>) \<and>
   Validate (new_KafkaHandler\<lparr>BootstrapServers := Some [[]], Topic := ''events''\<rparr>) = None"
  using parse_bootstrap_servers_never_empty [of "''a:1,,b:2''"] by blast

text \<open>
  Claim C10. Whatever the tokens, a configuration that a successful parse into a fresh
  handler produces with SASL enabled has the algorithm sha256 or sha512, so validation
  never answers it with the error of the invalid algorithm.
\<close>

theorem parsed_sasl_algorithm_recognized:
  assumes "UnmarshalCaddyfile d new_KafkaHandler = (None, d1, h1)" and "SASLAuth h1"
  shows "(SASLAlgorithm h1 = ''sha256'' \<or> SASLAlgorithm h1 = ''sha512'') \<and>
         Validate h1 \<noteq> Some (Errorf ''kafka invalid sasl algorithm'')"
proof -
  have fresh: "sasl_algorithm_recognized new_KafkaHandler"
    by (simp add: sasl_algorithm_recognized_def new_KafkaHandler_def)
  obtain b dn where nx: "Next d = (b, dn)" by (cases "Next d")
  from assms(1) nx have "block_loop dn new_KafkaHandler = (None, d1, h1)"
    by (cases b) (simp_all add: UnmarshalCaddyfile_def)
  from block_loop_sasl_algorithm_recognized [OF this fresh] assms(2)
  have alg: "SASLAlgorithm h1 = ''sha256'' \<or> SASLAlgorithm h1 = ''sha512''"
    by (simp add: sasl_algorithm_recognized_def)
  then have "Validate h1 \<noteq> Some (Errorf ''kafka invalid sasl algorithm'')"
    by (auto simp: Validate_def)
  with alg show ?thesis by simp
qed

theorem parsed_sasl_algorithm_recognized_witness:
  "fst (UnmarshalCaddyfile
          (NewDispenser (block_tokens [[''sasl_scram'', ''sha512'', ''user'', ''secret'']]))
          new_KafkaHandler) = None \<and>
   SASLAuth (snd (snd (UnmarshalCaddyfile
          (NewDispenser (block_tokens [[''sasl_scram'', ''sha512'', ''user'', ''secret'']]))
          new_KafkaHandler))) \<and>
   SASLAlgorithm (snd (snd (UnmarshalCaddyfile
          (NewDispenser (block_tokens [[''sasl_scram'', ''sha512'', ''user'', ''secret'']]))
          new_KafkaHandler))) = ''sha512'' \<and>
   Validate (snd (snd (UnmarshalCaddyfile
          (NewDispenser (block_tokens [[''sasl_scram'', ''sha512'', ''user'', ''secret'']]))
          new_KafkaHandler))) \<noteq> Some (Errorf ''kafka invalid sasl algorithm'')"
proof -
  let ?U = "UnmarshalCaddyfile
      (NewDispenser (block_tokens [[''sasl_scram'', ''sha512'', ''user'', ''secret'']]))
      new_KafkaHandler"
  have e: "fst ?U = None" by code_simp
  have a: "SASLAuth (snd (snd ?U))" by code_simp
  have s: "SASLAlgorithm (snd (snd ?U)) = ''sha512''" by code_simp
  from e have "?U = (None, fst (snd ?U), snd (snd ?U))"
    by (metis prod.collapse)
  from parsed_sasl_algorithm_recognized [OF this a] e a s show ?thesis
    by blast
qed

section \<open>Provisioning\<close>

text \<open>
  When the constructor of the mechanism fails, provisioning with SASL enabled and the
  algorithm sha256 or sha512 does not return: it panics with the constructor's error.
  An algorithm that is neither is returned as an error.
\<close>

lemma Provision_mechanism_failure_panics:
  assumes "SASLAuth h"
    and "SASLAlgorithm h = ''sha256'' \<and> method = SHA256 \<or>
         SASLAlgorithm h = ''sha512'' \<and> method = SHA512"
    and "scram_Mechanism method (SASLUsername h) (SASLPassword h) = Inl err"
  shows "Provision scram_Mechanism h = Panicked err"
  using assms
  by (auto simp: Provision_def SASLMethodSHA256_def SASLMethodSHA512_def)

lemma Provision_invalid_algorithm_returns:
  assumes "SASLAuth h" and "SASLAlgorithm h \<noteq> ''sha256''" and "SASLAlgorithm h \<noteq> ''sha512''"
  shows "\<exists>writer. Provision scram_Mechanism h =
           Returned (Some (Errorf (''invalid sasl algorithm: '' @ SASLAlgorithm h))) writer"
  using assms
  by (simp add: Provision_def SASLMethodSHA256_def SASLMethodSHA512_def Let_def)

text \<open>
  Claim C1, at the input where the source departs from it. The claim: when the
  construction of the SCRAM mechanism fails, provisioning returns a provisioning error
  and does not panic. The configuration below is valid and has SASL enabled; its
  username holds the control character U+0007, which the constructor refuses. The
  outcome of provisioning is the panic with the constructor's error, where the branch
  of the unknown algorithm, three lines above in the source, returns its error.
\<close>

theorem Provision_panics_on_refused_credentials:
  "Validate (new_KafkaHandler\<lparr>BootstrapServers := Some [''localhost:9092''],
      Topic := ''events'', SASLAuth := True, SASLAlgorithm := ''sha256'',
      SASLUsername := [CHR ''u'', CHR 0x07], SASLPassword := ''secret''\<rparr>) = None \<and>
   Provision control_refusing_Mechanism
     (new_KafkaHandler\<lparr>BootstrapServers := Some [''localhost:9092''],
        Topic := ''events'', SASLAuth := True, SASLAlgorithm := ''sha256'',
        SASLUsername := [CHR ''u'', CHR 0x07], SASLPassword := ''secret''\<rparr>) =
     Panicked (Errorf ''Error SASLprepping username'') \<and>
   Provision control_refusing_Mechanism
     (new_KafkaHandler\<lparr>BootstrapServers := Some [''localhost:9092''],
        Topic := ''events'', SASLAuth := True, SASLAlgorithm := ''md5'',
        SASLUsername := [CHR ''u'', CHR 0x07], SASLPassword := ''secret''\<rparr>) =
     Returned (Some (Errorf ''invalid sasl algorithm: md5''))
       \<lparr>Addr = [''localhost:9092''], Async = True,
        Transport = \<lparr>TLS = None, SASL = None\<rparr>\<rparr>"
  by (simp add: Validate_def Provision_def control_refusing_Mechanism_def
      ascii_control_def new_KafkaHandler_def SASLMethodSHA256_def SASLMethodSHA512_def len_def)

section \<open>Publishing an event\<close>

text \<open>
  What the source decides of the published message. For every event whose envelope
  serializes, handling it hands exactly one message to the writer: its key is the
  identifier of the event, its value the bytes that \<^verbatim>\<open>json.Marshal\<close> returned for the
  envelope, its topic the configured topic and its time the time of the event,
  whatever the writer answers. What those bytes decode to is decided by Go's JSON
  encoding of the envelope, which is not part of this development.
\<close>

lemma Handle_submits_one_message:
  assumes "json_Marshal ce = Inr data"
  shows "snd (Handle json_Marshal WriteMessages h ce) =
           [\<lparr>Key = ID ce, Value = data, Topic_msg = Topic h, Time_msg = Time ce\<rparr>]"
  using assms by (cases "WriteMessages
      [\<lparr>Key = ID ce, Value = data, Topic_msg = Topic h, Time_msg = Time ce\<rparr>]")
    (simp_all add: Handle_def)

section \<open>Further properties of the parser, the validation and the publisher\<close>

text \<open>
  A round of the loop whose current token is none of the five directive names fails
  with the error of the unsupported argument, and leaves dispenser and handler as
  they are.
\<close>

theorem directive_unknown_name:
  assumes "Val d \<noteq> ''topic''" and "Val d \<noteq> ''sasl_scram''" and "Val d \<noteq> ''tls''"
    and "Val d \<noteq> ''tls_no_verify''" and "Val d \<noteq> ''bootstrap_servers''"
  shows "directive d h = (Some (Errorf (''unsupported argument: '' @ Val d)), d, h)"
  using assms by (simp add: directive_def Let_def)

theorem directive_unknown_name_witness:
  "directive \<lparr>tokens = [\<lparr>File = ''Caddyfile'', Line = 2, Text = ''foo''\<rparr>], cursor = 0,
               nesting = 1\<rparr> new_KafkaHandler =
     (Some (Errorf ''unsupported argument: foo''),
      \<lparr>tokens = [\<lparr>File = ''Caddyfile'', Line = 2, Text = ''foo''\<rparr>], cursor = 0, nesting = 1\<rparr>,
      new_KafkaHandler)"
proof -
  let ?d = "\<lparr>tokens = [\<lparr>File = ''Caddyfile'', Line = 2, Text = ''foo''\<rparr>], cursor = 0,
      nesting = 1\<rparr>"
  have v: "Val ?d = ''foo''" by (simp add: Val_def)
  have "directive ?d new_KafkaHandler =
      (Some (Errorf (''unsupported argument: '' @ Val ?d)), ?d, new_KafkaHandler)"
    by (rule directive_unknown_name) (simp_all add: v)
  then show ?thesis by (simp add: v)
qed

text \<open>
  The example of the specification: \<^verbatim>\<open>bootstrap_servers "localhost:9092"\<close> and then
  \<^verbatim>\<open>topic "events"\<close> parse to the configuration with that address and that topic,
  and the configuration is valid.
\<close>

theorem parse_bootstrap_servers_topic_valid:
  "parse_block [[''bootstrap_servers'', ''localhost:9092''], [''topic'', ''events'']] =
     Inr (new_KafkaHandler\<lparr>BootstrapServers := Some [''localhost:9092''],
            Topic := ''events''\<rparr>) \<and>
   Validate (new_KafkaHandler\<lparr>BootstrapServers := Some [''localhost:9092''],
      Topic := ''events''\<rparr>) = None"
proof
  show "parse_block [[''bootstrap_servers'', ''localhost:9092''], [''topic'', ''events'']] =
      Inr (new_KafkaHandler\<lparr>BootstrapServers := Some [''localhost:9092''],
             Topic := ''events''\<rparr>)"
    by code_simp
  show "Validate (new_KafkaHandler\<lparr>BootstrapServers := Some [''localhost:9092''],
      Topic := ''events''\<rparr>) = None"
    by (simp add: Validate_def new_KafkaHandler_def len_def)
qed

text \<open>
  The directive \<^verbatim>\<open>tls\<close>: \<^verbatim>\<open>on\<close> enables TLS, \<^verbatim>\<open>off\<close> disables it, every other value
  is a parse error, and so is the directive without a value.
\<close>

theorem parse_tls:
  "parse_block [[''tls'', ''on'']] = Inr (new_KafkaHandler\<lparr>TLSEnabled := True\<rparr>) \<and>
   parse_block [[''tls'', ''off'']] = Inr (new_KafkaHandler\<lparr>TLSEnabled := False\<rparr>) \<and>
   (t \<noteq> ''on'' \<and> t \<noteq> ''off'' \<and> t \<noteq> ''{'' \<longrightarrow>
      parse_block [[''tls'', t]] = Inl (Errorf ''invalid value for tls'')) \<and>
   parse_block [[''tls'', ''{'']] = Inl ArgErr \<and>
   parse_block [[''tls'']] = Inl ArgErr"
  by (simp add: parse_defs Let_def)

theorem parse_tls_witness:
  "parse_block [[''tls'', ''maybe'']] = Inl (Errorf ''invalid value for tls'') \<and>
   parse_block [[''tls'', ''on'']] = Inr (new_KafkaHandler\<lparr>TLSEnabled := True\<rparr>)"
  using parse_tls [of "''maybe''"] by simp

text \<open>
  A directive that repeats overwrites: of two \<^verbatim>\<open>topic\<close> directives the second wins.
\<close>

theorem parse_topic_last_write_wins:
  assumes "a \<noteq> ''{''" and "b \<noteq> ''{''"
  shows "parse_block [[''topic'', a], [''topic'', b]] = Inr (new_KafkaHandler\<lparr>Topic := b\<rparr>)"
  using assms by (simp add: parse_defs Let_def)

theorem parse_topic_last_write_wins_witness:
  "parse_block [[''topic'', ''first''], [''topic'', ''second'']] =
     Inr (new_KafkaHandler\<lparr>Topic := ''second''\<rparr>)"
  by (rule parse_topic_last_write_wins) simp_all

text \<open>
  Validation does not look at the TLS flags: skipping the verification without TLS
  is accepted like every other setting of the two.
\<close>

theorem Validate_ignores_tls:
  "Validate (h\<lparr>TLSEnabled := e, TLSNoVerify := n\<rparr>) = Validate h"
  by (simp add: Validate_def)

text \<open>
  With everything else valid and SASL enabled, an algorithm that is neither sha256
  nor sha512, such as md5, fails validation with the error of the invalid algorithm.
\<close>

theorem Validate_invalid_algorithm:
  assumes "bootstrap_servers_nonempty h" and "topic_nonempty h" and "SASLAuth h"
    and "SASLUsername h \<noteq> []" and "SASLPassword h \<noteq> []"
    and "SASLAlgorithm h \<noteq> ''sha256''" and "SASLAlgorithm h \<noteq> ''sha512''"
  shows "Validate h = Some (Errorf ''kafka invalid sasl algorithm'')"
  using assms
  by (auto simp: Validate_def bootstrap_servers_nonempty_def topic_nonempty_def len_pos_iff)

theorem Validate_invalid_algorithm_witness:
  "Validate (new_KafkaHandler\<lparr>BootstrapServers := Some [''localhost:9092''],
      Topic := ''events'', SASLAuth := True, SASLAlgorithm := ''md5'',
      SASLUsername := ''user'', SASLPassword := ''secret''\<rparr>) =
     Some (Errorf ''kafka invalid sasl algorithm'')"
  by (rule Validate_invalid_algorithm)
    (simp_all add: bootstrap_servers_nonempty_def topic_nonempty_def new_KafkaHandler_def
      len_def)

text \<open>
  Whenever provisioning returns, the writer is asynchronous, the addresses handed to
  \<^verbatim>\<open>kafka.TCP\<close> are the bootstrap addresses, and its transport has a TLS configuration exactly when TLS is
  enabled; the verification of the peer is skipped exactly when the configuration
  says so.
\<close>

theorem Provision_writer:
  assumes "Provision scram_Mechanism h = Returned r writer"
  shows "Async writer \<and>
         Addr writer = (case BootstrapServers h of None \<Rightarrow> [] | Some addrs \<Rightarrow> addrs) \<and>
         TLS (Transport writer) =
           (if TLSEnabled h then Some \<lparr>InsecureSkipVerify = TLSNoVerify h\<rparr> else None)"
  using assms
  by (auto simp: Provision_def Let_def split: if_splits sum.splits)

theorem Provision_writer_witness:
  "Provision control_refusing_Mechanism
     (new_KafkaHandler\<lparr>BootstrapServers := Some [''localhost:9092''], TLSEnabled := True\<rparr>) =
     Returned None
       \<lparr>Addr = [''localhost:9092''], Async = True,
        Transport = \<lparr>TLS = Some \<lparr>InsecureSkipVerify = False\<rparr>, SASL = None\<rparr>\<rparr>"
proof -
  let ?h = "new_KafkaHandler\<lparr>BootstrapServers := Some [''localhost:9092''],
      TLSEnabled := True\<rparr>"
  obtain r w where p: "Provision control_refusing_Mechanism ?h = Returned r w"
    by (simp add: Provision_def new_KafkaHandler_def)
  from Provision_writer [OF p]
  have "Async w" and "Addr w = [''localhost:9092'']"
    and "TLS (Transport w) = Some \<lparr>InsecureSkipVerify = False\<rparr>"
    by (simp_all add: new_KafkaHandler_def)
  moreover from p have "r = None" and "SASL (Transport w) = None"
    by (auto simp: Provision_def new_KafkaHandler_def)
  ultimately have "w = \<lparr>Addr = [''localhost:9092''], Async = True,
        Transport = \<lparr>TLS = Some \<lparr>InsecureSkipVerify = False\<rparr>, SASL = None\<rparr>\<rparr>"
    by (cases w, cases "Transport w") auto
  with p \<open>r = None\<close> show ?thesis by simp
qed

text \<open>
  When the envelope does not serialize, handling the event returns the error of the
  serialization and hands no message to the writer; when the writer refuses the
  message, the error of the submission is returned.
\<close>

theorem Handle_errors:
  "(json_Marshal ce = Inl err \<longrightarrow>
      Handle json_Marshal WriteMessages h ce =
        (Some (Errorf (''failed to serialize event data: '' @ Error err)), [])) \<and>
   (json_Marshal ce = Inr data \<and>
    WriteMessages [\<lparr>Key = ID ce, Value = data, Topic_msg = Topic h, Time_msg = Time ce\<rparr>] =
      Some err \<longrightarrow>
      fst (Handle json_Marshal WriteMessages h ce) =
        Some (Errorf (''failed to write event to Kafka: '' @ Error err)))"
  by (simp add: Handle_def)

theorem Handle_errors_witness:
  "Handle (\<lambda>ce. Inl (Errorf ''unsupported type'')) (\<lambda>msgs. None) new_KafkaHandler
     \<lparr>ID = ''abc'', Source = ''tls'', SpecVersion = ''1.0'', Type = ''cert_obtained'',
      Time = 0, DataContentType = ''application/json'', Data = []\<rparr> =
     (Some (Errorf ''failed to serialize event data: unsupported type''), [])"
  using Handle_errors [of "\<lambda>ce. Inl (Errorf ''unsupported type'')" _ "Errorf ''unsupported type''"]
  by simp

end
